theory Spec2Isabelle
  imports Complex_Main "HOL-Library.AList"
begin

section \<open>Core types (core/types.ts)\<close>

text \<open>
  JavaScript numbers that the modelled code only adds, subtracts and compares are
  integers here: timestamps are epoch milliseconds, counters start at 0 and are
  incremented by one. The level table also holds \<open>Infinity\<close>, so a level value is
  either a finite number or the infinite sentinel.
\<close>

datatype LogLevelName = TRACE | DEBUG | INFO | WARN | ERROR | FATAL | SILENT

datatype LogLevelValue = Finite real | Infinity

fun LogLevel :: "LogLevelName \<Rightarrow> LogLevelValue" where
  "LogLevel TRACE = Finite 10"
| "LogLevel DEBUG = Finite 20"
| "LogLevel INFO = Finite 30"
| "LogLevel WARN = Finite 40"
| "LogLevel ERROR = Finite 50"
| "LogLevel FATAL = Finite 60"
| "LogLevel SILENT = Infinity"

text \<open>The comparisons \<open><\<close> and \<open>>=\<close> of JavaScript on such values.\<close>

fun js_less :: "LogLevelValue \<Rightarrow> LogLevelValue \<Rightarrow> bool" where
  "js_less (Finite a) (Finite b) = (a < b)"
| "js_less (Finite a) Infinity = True"
| "js_less Infinity b = False"

definition js_geq :: "LogLevelValue \<Rightarrow> LogLevelValue \<Rightarrow> bool" where
  "js_geq a b = (a = b \<or> js_less b a)"

type_synonym addr = nat

text \<open>
  \<open>OcppExchangeMeta\<close>: every field is optional; \<open>None\<close> is \<open>undefined\<close>.
\<close>

datatype MessageType = CALL | CALLRESULT | CALLERROR
datatype Direction = IN | OUT

record OcppExchangeMeta =
  chargePointId :: "string option"
  messageType :: "MessageType option"
  action :: "string option"
  direction :: "Direction option"
  metaCorrelationId :: "string option"
  protocol :: "string option"
  payloadSize :: "int option"
  latencyMs :: "int option"
  status :: "string option"

text \<open>
  \<open>LogEntry<TMeta>\<close>. The field \<open>id\<close> is \<open>entryId\<close> and \<open>context\<close> is
  \<open>boundContext\<close> here; \<open>context\<close> and \<open>error\<close> are references to objects that
  the middleware never reads.
\<close>

record 'm LogEntry =
  entryId :: string
  level :: int
  levelName :: LogLevelName
  message :: string
  timestamp :: int
  meta :: 'm
  boundContext :: "addr option"
  correlationId :: "string option"
  error :: "addr option"

section \<open>Sampling middleware (middleware/sampling.ts)\<close>

record 'm SamplingOptions =
  opt_keyFn :: "('m LogEntry \<Rightarrow> string) option"
  opt_maxPerWindow :: "int option"
  opt_windowMs :: "int option"

record BucketEntry =
  count :: int
  windowStart :: int

text \<open>
  The \<open>Map<string, BucketEntry>\<close> of the closure, as an association list in
  insertion order: \<open>get\<close> is \<open>map_of\<close>, \<open>set\<close> is \<open>AList.update\<close> (an existing key
  keeps its place, a new one goes to the end), \<open>delete\<close> is \<open>AList.delete\<close> and
  \<open>size\<close> is \<open>length\<close>. The keys of a table built by these operations are distinct.
\<close>

type_synonym buckets = "(string \<times> BucketEntry) list"

text \<open>The constants captured by the closure that \<open>samplingMiddleware\<close> returns.\<close>

record 'm sampler =
  keyFn :: "'m LogEntry \<Rightarrow> string"
  maxPerWindow :: int
  windowMs :: int

text \<open>\<open>a ?? b\<close>\<close>

fun nullish :: "'a option \<Rightarrow> 'a \<Rightarrow> 'a" where
  "nullish None d = d"
| "nullish (Some v) d = v"

definition empty_options :: "'m SamplingOptions" where
  "empty_options = \<lparr>opt_keyFn = None, opt_maxPerWindow = None, opt_windowMs = None\<rparr>"

text \<open>
  \<open>samplingMiddleware(options = {})\<close>, lines 45-51: an omitted argument is the
  empty options object. The bucket table of a new instance is \<open>[]\<close>.
\<close>

definition samplingMiddleware :: "'m SamplingOptions option \<Rightarrow> 'm sampler" where
  "samplingMiddleware arg =
     (let options = nullish arg empty_options in
      \<lparr>keyFn = nullish (opt_keyFn options) (\<lambda>entry. message entry),
       maxPerWindow = nullish (opt_maxPerWindow options) 100,
       windowMs = nullish (opt_windowMs options) 60000\<rparr>)"

definition new_buckets :: buckets where
  "new_buckets = []"

text \<open>
  Lines 54-67 of the returned closure: the bucket lookup, the reset, the increment and
  the conditional call of \<open>next\<close>. The second component is the list of arguments
  \<open>next\<close> was called with, in call order.
\<close>

definition sampling_admit ::
  "'m sampler \<Rightarrow> buckets \<Rightarrow> 'm LogEntry \<Rightarrow> buckets \<times> 'm LogEntry list" where
  "sampling_admit cfg bs entry =
     (let key = keyFn cfg entry;
          now = timestamp entry;
          fresh = \<lparr>count = 0, windowStart = now\<rparr>;
          (bucket, bs1) =
            (case map_of bs key of
               None \<Rightarrow> (fresh, AList.update key fresh bs)
             | Some b \<Rightarrow>
                 if now - windowStart b \<ge> windowMs cfg
                 then (fresh, AList.update key fresh bs)
                 else (b, bs));
          bucket' = bucket\<lparr>count := count bucket + 1\<rparr>;
          bs2 = AList.update key bucket' bs1
      in (bs2, if count bucket' \<le> maxPerWindow cfg then [entry] else []))"

text \<open>
  Lines 72-76: the \<open>for ... of\<close> loop over the table. Only the entry being visited is
  ever deleted, so the loop visits the entries the table had when it started.
\<close>

fun sweep_loop :: "int \<Rightarrow> int \<Rightarrow> (string \<times> BucketEntry) list \<Rightarrow> buckets \<Rightarrow> buckets" where
  "sweep_loop now w [] bs = bs"
| "sweep_loop now w ((k, b) # rest) bs =
     sweep_loop now w rest
       (if now - windowStart b \<ge> w * 2 then AList.delete k bs else bs)"

text \<open>Lines 70-77.\<close>

definition sampling_cleanup :: "'m sampler \<Rightarrow> int \<Rightarrow> buckets \<Rightarrow> buckets" where
  "sampling_cleanup cfg now bs =
     (if length bs > 10000 then sweep_loop now (windowMs cfg) bs bs else bs)"

text \<open>One invocation of the closure, lines 53-78.\<close>

definition sampling_call ::
  "'m sampler \<Rightarrow> buckets \<Rightarrow> 'm LogEntry \<Rightarrow> buckets \<times> 'm LogEntry list" where
  "sampling_call cfg bs entry =
     (let (bs2, calls) = sampling_admit cfg bs entry
      in (sampling_cleanup cfg (timestamp entry) bs2, calls))"

text \<open>Consecutive invocations of one instance; the calls of \<open>next\<close> are concatenated.\<close>

fun sampling_run ::
  "'m sampler \<Rightarrow> buckets \<Rightarrow> 'm LogEntry list \<Rightarrow> buckets \<times> 'm LogEntry list" where
  "sampling_run cfg bs [] = (bs, [])"
| "sampling_run cfg bs (e # es) =
     (let (bs1, calls1) = sampling_call cfg bs e;
          (bs2, calls2) = sampling_run cfg bs1 es
      in (bs2, calls1 @ calls2))"

text \<open>The admit/drop decision of each invocation, in order.\<close>

fun sampling_decisions :: "'m sampler \<Rightarrow> buckets \<Rightarrow> 'm LogEntry list \<Rightarrow> bool list" where
  "sampling_decisions cfg bs [] = []"
| "sampling_decisions cfg bs (e # es) =
     (snd (sampling_call cfg bs e) \<noteq> []) #
       sampling_decisions cfg (fst (sampling_call cfg bs e)) es"

section \<open>The rate limiter in the words of the specification\<close>

text \<open>
  The specification's algorithm on an abstract table, a partial map from keys to buckets:
  look the bucket up; if it is absent or \<open>now - windowStart >= windowMs\<close>, reset it to
  \<open>{count: 0, windowStart: now}\<close>; increment the count; admit iff the count is at most
  \<open>maxPerWindow\<close>. These three definitions follow the specification, not the source.
\<close>

definition spec_lookup_or_reset :: "int \<Rightarrow> int \<Rightarrow> BucketEntry option \<Rightarrow> BucketEntry" where
  "spec_lookup_or_reset w now ob =
     (case ob of
        None \<Rightarrow> \<lparr>count = 0, windowStart = now\<rparr>
      | Some b \<Rightarrow> if now - windowStart b \<ge> w then \<lparr>count = 0, windowStart = now\<rparr> else b)"

definition spec_increment :: "BucketEntry \<Rightarrow> BucketEntry" where
  "spec_increment b = b\<lparr>count := count b + 1\<rparr>"

definition spec_rate_limit ::
  "int \<Rightarrow> int \<Rightarrow> (string \<rightharpoonup> BucketEntry) \<Rightarrow> string \<Rightarrow> int
     \<Rightarrow> (string \<rightharpoonup> BucketEntry) \<times> bool" where
  "spec_rate_limit maxPW w table key now =
     (let b = spec_increment (spec_lookup_or_reset w now (table key))
      in (table(key \<mapsto> b), count b \<le> maxPW))"

section \<open>OCPP enrichment middleware (middleware/ocpp.ts)\<close>

text \<open>
  The middleware copies the entry and its \<open>meta\<close> object and writes to the copies, so
  objects live in a store: an address is an index into the list of allocated objects, and
  an allocation appends to it. An entry object holds the address of its \<open>meta\<close> object.
\<close>

datatype obj = EntryObj "addr LogEntry" | MetaObj OcppExchangeMeta | OtherObj

type_synonym heap = "obj list"

definition heap_get :: "heap \<Rightarrow> addr \<Rightarrow> obj option" where
  "heap_get h a = (if a < length h then Some (h ! a) else None)"

definition heap_alloc :: "heap \<Rightarrow> obj \<Rightarrow> heap \<times> addr" where
  "heap_alloc h ob = (h @ [ob], length h)"

record OcppMiddlewareOptions =
  opt_autoPayloadSize :: "bool option"
  opt_propagateCorrelationId :: "bool option"

text \<open>The constants captured by the closure that \<open>ocppMiddleware\<close> returns.\<close>

record ocpp_enricher =
  autoPayloadSize :: bool
  propagateCorrelationId :: bool

text \<open>\<open>ocppMiddleware(options = {})\<close>, lines 47-51.\<close>

definition ocppMiddleware :: "OcppMiddlewareOptions option \<Rightarrow> ocpp_enricher" where
  "ocppMiddleware arg =
     (let options = nullish arg \<lparr>opt_autoPayloadSize = None, opt_propagateCorrelationId = None\<rparr>
      in \<lparr>autoPayloadSize = nullish (opt_autoPayloadSize options) True,
          propagateCorrelationId = nullish (opt_propagateCorrelationId options) True\<rparr>)"

text \<open>
  A value of type \<open>string | undefined\<close> used as a condition: \<open>undefined\<close> and the empty
  string are falsy.
\<close>

fun truthy :: "string option \<Rightarrow> bool" where
  "truthy None = False"
| "truthy (Some s) = (s \<noteq> [])"

text \<open>
  One invocation of the closure, lines 53-79, on the entry object at address \<open>entry\<close>.
  \<open>JSON.stringify\<close> belongs to the runtime and is a parameter: \<open>stringify m\<close> is the
  text it returns on the meta object, or \<open>None\<close> when it throws (the \<open>catch\<close> then leaves
  \<open>payloadSize\<close> undefined). The result is the store after the call and the arguments of
  the calls of \<open>next\<close>; it is \<open>None\<close> only when \<open>entry\<close> is not the address of an entry
  object with a meta object, which typed callers never pass.
\<close>

definition ocpp_call ::
  "ocpp_enricher \<Rightarrow> (OcppExchangeMeta \<Rightarrow> string option) \<Rightarrow> heap \<Rightarrow> addr
     \<Rightarrow> (heap \<times> addr list) option" where
  "ocpp_call cfg stringify h entry =
     (case heap_get h entry of
        Some (EntryObj e) \<Rightarrow>
          (case heap_get h (meta e) of
             Some (MetaObj m) \<Rightarrow>
               (let (h1, metaRef) = heap_alloc h (MetaObj m);
                    e0 = e\<lparr>meta := metaRef\<rparr>;
                    (h2, enriched) = heap_alloc h1 (EntryObj e0);
                    m1 = (if autoPayloadSize cfg \<and> payloadSize m = None \<and> truthy (action m)
                          then (case stringify m of
                                  Some s \<Rightarrow> m\<lparr>payloadSize := Some (int (length s))\<rparr>
                                | None \<Rightarrow> m)
                          else m);
                    h3 = h2[metaRef := MetaObj m1];
                    e1 = (if propagateCorrelationId cfg \<and> truthy (metaCorrelationId m1)
                             \<and> \<not> truthy (correlationId e0)
                          then e0\<lparr>correlationId := metaCorrelationId m1\<rparr>
                          else e0);
                    h4 = h3[enriched := EntryObj e1]
                in Some (h4, [enriched]))
           | _ \<Rightarrow> None)
      | _ \<Rightarrow> None)"

text \<open>The arguments of the calls of \<open>next\<close> made by one invocation.\<close>

definition ocpp_next_calls ::
  "ocpp_enricher \<Rightarrow> (OcppExchangeMeta \<Rightarrow> string option) \<Rightarrow> heap \<Rightarrow> addr \<Rightarrow> addr list" where
  "ocpp_next_calls cfg stringify h entry =
     (case ocpp_call cfg stringify h entry of None \<Rightarrow> [] | Some (h', calls) \<Rightarrow> calls)"

section \<open>Concrete inputs\<close>

text \<open>An entry like the \<open>mockEntry\<close> of the test files, with a given message and time.\<close>

definition mk_entry :: "string \<Rightarrow> int \<Rightarrow> unit LogEntry" where
  "mk_entry msg t =
     \<lparr>entryId = ''abc'', level = 30, levelName = INFO, message = msg, timestamp = t,
      meta = (), boundContext = None, correlationId = None, error = None\<rparr>"

definition sampler_2_per_1000 :: "unit sampler" where
  "sampler_2_per_1000 =
     samplingMiddleware
       (Some \<lparr>opt_keyFn = None, opt_maxPerWindow = Some 2, opt_windowMs = Some 1000\<rparr>)"

definition sampler_10_per_1000 :: "unit sampler" where
  "sampler_10_per_1000 =
     samplingMiddleware
       (Some \<lparr>opt_keyFn = None, opt_maxPerWindow = Some 10, opt_windowMs = Some 1000\<rparr>)"


text \<open>
  A table of 10001 buckets, all opened at time 0, under the keys \<open>k\<close>, \<open>kk\<close>, \<open>kkk\<close>, ...;
  and an entry at time 2000 whose message is the first of these keys.
\<close>

definition sample_key :: "nat \<Rightarrow> string" where
  "sample_key i = replicate (Suc i) (CHR ''k'')"

definition full_table :: buckets where
  "full_table = map (\<lambda>i. (sample_key i, \<lparr>count = 1, windowStart = 0\<rparr>)) [0..<10001]"

definition sweep_entry :: "unit LogEntry" where
  "sweep_entry = mk_entry (sample_key 0) 2000"

text \<open>
  A store with a meta object at address 0 and an entry at address 1 that refers to it,
  as in the example of the module's header; the same with an entry whose
  \<open>correlationId\<close> is the empty string; and a stand-in for \<open>JSON.stringify\<close>.
\<close>

definition boot_meta :: OcppExchangeMeta where
  "boot_meta =
     \<lparr>chargePointId = Some ''CP-1'', messageType = Some CALL, action = Some ''BootNotification'',
      direction = Some IN, metaCorrelationId = Some ''abc'', protocol = None,
      payloadSize = None, latencyMs = None, status = None\<rparr>"

definition boot_entry :: "addr LogEntry" where
  "boot_entry =
     \<lparr>entryId = ''abc'', level = 30, levelName = INFO, message = ''Message received'',
      timestamp = 0, meta = 0, boundContext = None, correlationId = None, error = None\<rparr>"

definition boot_heap :: heap where
  "boot_heap = [MetaObj boot_meta, EntryObj boot_entry]"

definition blank_id_entry :: "addr LogEntry" where
  "blank_id_entry = boot_entry\<lparr>correlationId := Some []\<rparr>"

definition blank_id_heap :: heap where
  "blank_id_heap = [MetaObj boot_meta, EntryObj blank_id_entry]"

definition braces :: "OcppExchangeMeta \<Rightarrow> string option" where
  "braces m = Some ''{}''"

section \<open>The bucket table\<close>

text \<open>The loop deletes the keys of the visited entries that are stale, and nothing else.\<close>

lemma sweep_loop_filter:
  "sweep_loop now w xs bs =
     filter (\<lambda>p. fst p \<notin> fst ` {q \<in> set xs. now - windowStart (snd q) \<ge> w * 2}) bs"
proof (induction xs arbitrary: bs)
  case Nil
  then show ?case by simp
next
  case (Cons x xs)
  obtain k b where x: "x = (k, b)" by (cases x)
  show ?case
  proof (cases "now - windowStart b \<ge> w * 2")
    case True
    have "filter (\<lambda>p. fst p \<notin> fst ` {q \<in> set xs. now - windowStart (snd q) \<ge> w * 2})
            (AList.delete k bs)
        = filter (\<lambda>p. fst p \<notin> fst ` {q \<in> set ((k, b) # xs). now - windowStart (snd q) \<ge> w * 2}) bs"
      unfolding AList.delete_eq filter_filter
      using True by (intro filter_cong) (auto simp: image_iff)
    with True show ?thesis by (simp add: x Cons.IH)
  next
    case False
    have "filter (\<lambda>p. fst p \<notin> fst ` {q \<in> set xs. now - windowStart (snd q) \<ge> w * 2}) bs
        = filter (\<lambda>p. fst p \<notin> fst ` {q \<in> set ((k, b) # xs). now - windowStart (snd q) \<ge> w * 2}) bs"
      using False by (intro filter_cong) (auto simp: image_iff)
    with False show ?thesis by (simp add: x Cons.IH)
  qed
qed

lemma sweep_loop_self:
  assumes "distinct (map fst bs)"
  shows "sweep_loop now w bs bs = filter (\<lambda>p. \<not> now - windowStart (snd p) \<ge> w * 2) bs"
proof -
  have "fst p \<in> fst ` {q \<in> set bs. now - windowStart (snd q) \<ge> w * 2}
          \<longleftrightarrow> now - windowStart (snd p) \<ge> w * 2" if "p \<in> set bs" for p
  proof
    assume "fst p \<in> fst ` {q \<in> set bs. now - windowStart (snd q) \<ge> w * 2}"
    then obtain q where q: "q \<in> set bs" "now - windowStart (snd q) \<ge> w * 2" "fst q = fst p"
      by auto
    from assms q(1) that q(3) have "q = p"
      by (metis eq_key_imp_eq_value prod.collapse)
    with q(2) show "now - windowStart (snd p) \<ge> w * 2" by simp
  next
    assume "now - windowStart (snd p) \<ge> w * 2"
    with that show "fst p \<in> fst ` {q \<in> set bs. now - windowStart (snd q) \<ge> w * 2}"
      by auto
  qed
  then show ?thesis
    unfolding sweep_loop_filter by (auto intro!: filter_cong)
qed

text \<open>Every operation of the closure keeps the keys of the table distinct.\<close>

lemma admit_distinct:
  "distinct (map fst bs) \<Longrightarrow> distinct (map fst (fst (sampling_admit cfg bs e)))"
  by (simp add: sampling_admit_def Let_def distinct_update split: option.splits)



lemma map_of_filter_distinct:
  "distinct (map fst bs) \<Longrightarrow>
   map_of (filter P bs) k =
     (case map_of bs k of None \<Rightarrow> None | Some b \<Rightarrow> if P (k, b) then Some b else None)"
  by (induction bs) (auto split: option.splits simp: rev_image_eqI dest: map_of_SomeD)

lemma length_update:
  "length (AList.update k v al) = (if k \<in> fst ` set al then length al else Suc (length al))"
  by (induction al) auto

section \<open>One invocation of the sampling closure\<close>

lemma admit_table:
  "map_of (fst (sampling_admit cfg bs e)) =
     (map_of bs)(keyFn cfg e \<mapsto>
        spec_increment (spec_lookup_or_reset (windowMs cfg) (timestamp e) (map_of bs (keyFn cfg e))))"
  by (auto simp: sampling_admit_def Let_def spec_increment_def spec_lookup_or_reset_def
        update_conv' split: option.splits)

lemma admit_calls:
  "snd (sampling_admit cfg bs e) =
     (if count (spec_increment (spec_lookup_or_reset (windowMs cfg) (timestamp e)
            (map_of bs (keyFn cfg e)))) \<le> maxPerWindow cfg then [e] else [])"
  by (auto simp: sampling_admit_def Let_def spec_increment_def spec_lookup_or_reset_def
        split: option.splits)

lemma admit_length:
  "length (fst (sampling_admit cfg bs e)) =
     (if keyFn cfg e \<in> fst ` set bs then length bs else Suc (length bs))"
  by (auto simp: sampling_admit_def Let_def length_update dom_update split: option.splits)

lemma call_calls: "snd (sampling_call cfg bs e) = snd (sampling_admit cfg bs e)"
  by (simp add: sampling_call_def split_beta)

lemma call_table:
  "fst (sampling_call cfg bs e) =
     sampling_cleanup cfg (timestamp e) (fst (sampling_admit cfg bs e))"
  by (simp add: sampling_call_def split_beta)

lemma cleanup_map_of:
  assumes "distinct (map fst bs)"
  shows "map_of (sampling_cleanup cfg now bs) k =
     (if length bs > 10000
      then (case map_of bs k of None \<Rightarrow> None
            | Some b \<Rightarrow> if now - windowStart b \<ge> windowMs cfg * 2 then None else Some b)
      else map_of bs k)"
  using assms
  by (simp add: sampling_cleanup_def sweep_loop_self map_of_filter_distinct split: option.splits)

lemma call_lookup_after_sweep:
  assumes "distinct (map fst bs)"
    and "length (fst (sampling_admit cfg bs e)) > 10000"
  shows "map_of (fst (sampling_call cfg bs e)) k =
     (case map_of (fst (sampling_admit cfg bs e)) k of
        None \<Rightarrow> None
      | Some b \<Rightarrow> if timestamp e - windowStart b \<ge> windowMs cfg * 2 then None else Some b)"
  using assms(2) by (simp add: call_table cleanup_map_of [OF admit_distinct [OF assms(1)]])



lemma call_key_time:
  assumes "keyFn cfg e1 = keyFn cfg e2" and "timestamp e1 = timestamp e2"
  shows "fst (sampling_call cfg bs e1) = fst (sampling_call cfg bs e2)"
    and "(snd (sampling_call cfg bs e1) \<noteq> []) = (snd (sampling_call cfg bs e2) \<noteq> [])"
  using assms
  by (simp_all add: sampling_call_def sampling_admit_def Let_def split_beta split: option.splits)




section \<open>Runs of the sampling closure\<close>


lemma run_Cons_table:
  "fst (sampling_run cfg bs (e # es)) = fst (sampling_run cfg (fst (sampling_call cfg bs e)) es)"
  by (simp add: split_beta)


section \<open>The concrete inputs\<close>

lemma sample_key_inj: "sample_key i = sample_key j \<longleftrightarrow> i = j"
proof
  assume "sample_key i = sample_key j"
  then have "length (sample_key i) = length (sample_key j)" by simp
  then show "i = j" by (simp add: sample_key_def)
qed simp

lemma map_of_keyed:
  "map_of (map (\<lambda>i. (sample_key i, b)) xs) (sample_key j) = (if j \<in> set xs then Some b else None)"
  by (induction xs) (auto simp: sample_key_inj)

lemma full_table_lookup:
  "j < 10001 \<Longrightarrow> map_of full_table (sample_key j) = Some \<lparr>count = 1, windowStart = 0\<rparr>"
  by (simp add: full_table_def map_of_keyed)

lemma full_table_length: "length full_table = 10001"
  by (simp add: full_table_def)

lemma full_table_distinct: "distinct (map fst full_table)"
  by (simp add: full_table_def comp_def distinct_map inj_on_def sample_key_inj)

lemma full_table_keys: "j < 10001 \<Longrightarrow> sample_key j \<in> fst ` set full_table"
  by (force simp: full_table_def)

lemma full_table_admit_length:
  "j < 10001 \<Longrightarrow> keyFn cfg e = sample_key j \<Longrightarrow>
   length (fst (sampling_admit cfg full_table e)) = 10001"
  by (simp add: admit_length full_table_keys full_table_length)

lemma sampler_10_per_1000_fields:
  "keyFn sampler_10_per_1000 = message"
  "maxPerWindow sampler_10_per_1000 = 10"
  "windowMs sampler_10_per_1000 = 1000"
  by (simp_all add: sampler_10_per_1000_def samplingMiddleware_def)

lemma sweep_entry_fields:
  "message sweep_entry = sample_key 0"
  "timestamp sweep_entry = 2000"
  by (simp_all add: sweep_entry_def mk_entry_def)

lemma sweep_entry_key: "keyFn sampler_10_per_1000 sweep_entry = sample_key 0"
  by (simp add: sampler_10_per_1000_fields sweep_entry_fields)

lemma sweep_entry_admit_length:
  "length (fst (sampling_admit sampler_10_per_1000 full_table sweep_entry)) = 10001"
  by (rule full_table_admit_length [OF _ sweep_entry_key]) simp

lemma sweep_entry_admit_other:
  "map_of (fst (sampling_admit sampler_10_per_1000 full_table sweep_entry)) (sample_key (Suc 0))
     = Some \<lparr>count = 1, windowStart = 0\<rparr>"
  by (simp add: admit_table sweep_entry_key sample_key_inj full_table_lookup)













section \<open>One invocation of the OCPP closure\<close>

lemma ocpp_call_Some:
  assumes "heap_get h a = Some (EntryObj e)" and "heap_get h (meta e) = Some (MetaObj m)"
  shows "ocpp_call cfg js h a =
     Some (h @ [MetaObj (if autoPayloadSize cfg \<and> payloadSize m = None \<and> truthy (action m)
                          then (case js m of
                                  Some s \<Rightarrow> m\<lparr>payloadSize := Some (int (length s))\<rparr>
                                | None \<Rightarrow> m)
                          else m),
                EntryObj (if propagateCorrelationId cfg \<and> truthy (metaCorrelationId m)
                             \<and> \<not> truthy (correlationId e)
                          then e\<lparr>meta := length h, correlationId := metaCorrelationId m\<rparr>
                          else e\<lparr>meta := length h\<rparr>)],
           [Suc (length h)])"
  using assms
  by (auto simp: ocpp_call_def heap_alloc_def Let_def list_update_append nth_append
        split: option.splits)

lemma boot_heap_objects:
  "heap_get boot_heap 1 = Some (EntryObj boot_entry)"
  "heap_get boot_heap (meta boot_entry) = Some (MetaObj boot_meta)"
  by (simp_all add: heap_get_def boot_heap_def boot_entry_def)

lemma blank_id_heap_objects:
  "heap_get blank_id_heap 1 = Some (EntryObj blank_id_entry)"
  "heap_get blank_id_heap (meta blank_id_entry) = Some (MetaObj boot_meta)"
  by (simp_all add: heap_get_def blank_id_heap_def blank_id_entry_def boot_entry_def)

section \<open>The claims\<close>




text \<open>
  Claim C2. The closure refines the specification's algorithm. Lines 54-67, on the table
  read as a map, do what \<open>spec_rate_limit\<close> does: look the key's bucket up; replace it by
  \<open>{count: 0, windowStart: entry.timestamp}\<close> when it is absent or
  \<open>entry.timestamp - windowStart >= windowMs\<close>; increment the count; leave every other
  key alone. \<open>next\<close> is called with the entry, once, iff the incremented count is at most
  \<open>maxPerWindow\<close>, and is not called for a dropped entry; the sweep that follows adds no
  call. The table the closure leaves is that table after the clean-up of lines 70-77: it
  is that very table when it holds at most 10000 buckets; for a positive \<open>windowMs\<close> it
  holds the incremented bucket under the entry's key in every case; and it never holds a
  bucket that the specification's table does not hold.
\<close>

theorem sampling_admit_refines_spec:
  "map_of (fst (sampling_admit cfg bs e))
     = fst (spec_rate_limit (maxPerWindow cfg) (windowMs cfg) (map_of bs) (keyFn cfg e) (timestamp e))
   \<and> snd (sampling_admit cfg bs e)
     = (if snd (spec_rate_limit (maxPerWindow cfg) (windowMs cfg) (map_of bs) (keyFn cfg e)
                 (timestamp e))
        then [e] else [])
   \<and> snd (sampling_call cfg bs e) = snd (sampling_admit cfg bs e)
   \<and> fst (sampling_call cfg bs e)
       = sampling_cleanup cfg (timestamp e) (fst (sampling_admit cfg bs e))
   \<and> (length (fst (sampling_admit cfg bs e)) \<le> 10000 \<longrightarrow>
        fst (sampling_call cfg bs e) = fst (sampling_admit cfg bs e)
      \<and> map_of (fst (sampling_call cfg bs e))
          = fst (spec_rate_limit (maxPerWindow cfg) (windowMs cfg) (map_of bs) (keyFn cfg e)
                  (timestamp e)))
   \<and> (distinct (map fst bs) \<and> 0 < windowMs cfg \<longrightarrow>
        map_of (fst (sampling_call cfg bs e)) (keyFn cfg e)
          = Some (spec_increment
                   (spec_lookup_or_reset (windowMs cfg) (timestamp e) (map_of bs (keyFn cfg e)))))
   \<and> (distinct (map fst bs) \<longrightarrow>
        (\<forall>k b. map_of (fst (sampling_call cfg bs e)) k = Some b \<longrightarrow>
           fst (spec_rate_limit (maxPerWindow cfg) (windowMs cfg) (map_of bs) (keyFn cfg e)
                  (timestamp e)) k = Some b))"
proof -
  let ?S = "spec_rate_limit (maxPerWindow cfg) (windowMs cfg) (map_of bs) (keyFn cfg e) (timestamp e)"
  let ?B = "spec_increment
              (spec_lookup_or_reset (windowMs cfg) (timestamp e) (map_of bs (keyFn cfg e)))"
  have 1: "map_of (fst (sampling_admit cfg bs e)) = fst ?S"
    by (simp add: spec_rate_limit_def Let_def admit_table)
  have 2: "snd (sampling_admit cfg bs e) = (if snd ?S then [e] else [])"
    by (simp add: spec_rate_limit_def Let_def admit_calls)
  have 5: "fst (sampling_call cfg bs e) = fst (sampling_admit cfg bs e)
      \<and> map_of (fst (sampling_call cfg bs e)) = fst ?S"
    if "length (fst (sampling_admit cfg bs e)) \<le> 10000"
    using that 1 by (simp add: call_table sampling_cleanup_def)
  have 6: "map_of (fst (sampling_call cfg bs e)) (keyFn cfg e) = Some ?B"
    if "distinct (map fst bs)" "0 < windowMs cfg"
  proof -
    have d: "distinct (map fst (fst (sampling_admit cfg bs e)))"
      using that(1) by (rule admit_distinct)
    have "\<not> timestamp e - windowStart ?B \<ge> windowMs cfg * 2"
      using that(2)
      by (auto simp: spec_increment_def spec_lookup_or_reset_def split: option.splits)
    then show ?thesis
      by (simp add: call_table cleanup_map_of [OF d] admit_table)
  qed
  have 7: "fst ?S k = Some b"
    if "distinct (map fst bs)" "map_of (fst (sampling_call cfg bs e)) k = Some b" for k b
  proof -
    have d: "distinct (map fst (fst (sampling_admit cfg bs e)))"
      using that(1) by (rule admit_distinct)
    from that(2) have "map_of (fst (sampling_admit cfg bs e)) k = Some b"
      by (simp add: call_table cleanup_map_of [OF d] split: if_splits option.splits)
    with 1 show ?thesis by simp
  qed
  from 1 2 5 6 7 show ?thesis
    by (simp add: call_calls call_table)
qed

theorem sampling_admit_refines_spec_witness:
  "map_of (fst (sampling_admit sampler_2_per_1000
        [(''boot'', \<lparr>count = 2, windowStart = 0\<rparr>)] (mk_entry ''boot'' 999))) ''boot''
     = Some \<lparr>count = 3, windowStart = 0\<rparr>
   \<and> sampling_call sampler_2_per_1000
        [(''boot'', \<lparr>count = 2, windowStart = 0\<rparr>)] (mk_entry ''boot'' 999)
     = ([(''boot'', \<lparr>count = 3, windowStart = 0\<rparr>)], [])
   \<and> map_of (fst (sampling_admit sampler_2_per_1000
        [(''boot'', \<lparr>count = 2, windowStart = 0\<rparr>)] (mk_entry ''boot'' 1000))) ''boot''
     = Some \<lparr>count = 1, windowStart = 1000\<rparr>
   \<and> sampling_call sampler_2_per_1000
        [(''boot'', \<lparr>count = 2, windowStart = 0\<rparr>)] (mk_entry ''boot'' 1000)
     = ([(''boot'', \<lparr>count = 1, windowStart = 1000\<rparr>)], [mk_entry ''boot'' 1000])
   \<and> sampling_call sampler_2_per_1000 new_buckets (mk_entry ''boot'' 0)
     = ([(''boot'', \<lparr>count = 1, windowStart = 0\<rparr>)], [mk_entry ''boot'' 0])"
  using sampling_admit_refines_spec [of sampler_2_per_1000
          "[(''boot'', \<lparr>count = 2, windowStart = 0\<rparr>)]" "mk_entry ''boot'' 999"]
        sampling_admit_refines_spec [of sampler_2_per_1000
          "[(''boot'', \<lparr>count = 2, windowStart = 0\<rparr>)]" "mk_entry ''boot'' 1000"]
        sampling_admit_refines_spec [of sampler_2_per_1000 new_buckets "mk_entry ''boot'' 0"]
  by (simp add: spec_rate_limit_def spec_increment_def spec_lookup_or_reset_def
        sampler_2_per_1000_def samplingMiddleware_def mk_entry_def new_buckets_def
        sampling_call_def sampling_admit_def sampling_cleanup_def Let_def)

text \<open>
  Claim C3, as stated, fails. With \<open>windowMs = 1000\<close>, the table of 10001 buckets opened
  at time 0 and an entry at time 2000, the bucket of the key \<open>kk\<close> has a window that ended
  at time 1000, which is later than \<open>now - 2 * windowMs = 0\<close>; the claim says the sweep
  keeps it, and the sweep removes it.
\<close>

theorem sampling_sweep_2w_counterexample:
  "length (fst (sampling_admit sampler_10_per_1000 full_table sweep_entry)) > 10000
   \<and> map_of (fst (sampling_admit sampler_10_per_1000 full_table sweep_entry)) (sample_key 1)
       = Some \<lparr>count = 1, windowStart = 0\<rparr>
   \<and> \<not> (windowStart \<lparr>count = 1, windowStart = 0\<rparr> + windowMs sampler_10_per_1000
         \<le> timestamp sweep_entry - 2 * windowMs sampler_10_per_1000)
   \<and> map_of (fst (sampling_call sampler_10_per_1000 full_table sweep_entry)) (sample_key 1) = None"
proof -
  have "map_of (fst (sampling_call sampler_10_per_1000 full_table sweep_entry)) (sample_key 1) = None"
    by (simp add: call_lookup_after_sweep [OF full_table_distinct] sweep_entry_admit_length
          sweep_entry_admit_other sampler_10_per_1000_fields sweep_entry_fields)
  moreover have "\<not> (windowStart \<lparr>count = 1, windowStart = 0\<rparr> + windowMs sampler_10_per_1000
         \<le> timestamp sweep_entry - 2 * windowMs sampler_10_per_1000)"
    by (simp add: sampler_10_per_1000_fields sweep_entry_fields)
  ultimately show ?thesis
    by (simp add: sweep_entry_admit_length sweep_entry_admit_other)
qed

text \<open>
  Claim C3, amended. When the table holds more than 10000 buckets after the entry has
  been counted, the sweep removes a bucket iff its window ended at least \<open>windowMs\<close>
  before the entry's timestamp (\<open>windowStart + windowMs <= now - windowMs\<close>), and a
  bucket it keeps is unchanged. So, for a \<open>windowMs\<close> that is not negative, it removes
  every bucket whose window ended at least \<open>2 * windowMs\<close> before that timestamp.
\<close>

theorem sampling_sweep_threshold:
  assumes "distinct (map fst bs)"
    and "length (fst (sampling_admit cfg bs e)) > 10000"
    and "map_of (fst (sampling_admit cfg bs e)) k = Some b"
  shows "(windowStart b + windowMs cfg \<le> timestamp e - windowMs cfg
            \<longrightarrow> map_of (fst (sampling_call cfg bs e)) k = None)
       \<and> (\<not> windowStart b + windowMs cfg \<le> timestamp e - windowMs cfg
            \<longrightarrow> map_of (fst (sampling_call cfg bs e)) k = Some b)
       \<and> (0 \<le> windowMs cfg \<and> windowStart b + windowMs cfg \<le> timestamp e - 2 * windowMs cfg
            \<longrightarrow> map_of (fst (sampling_call cfg bs e)) k = None)"
  using assms(3) by (simp add: call_lookup_after_sweep [OF assms(1,2)])

theorem sampling_sweep_threshold_witness:
  "map_of (fst (sampling_call sampler_10_per_1000 full_table sweep_entry)) (sample_key (Suc 0))
     = None"
  using sampling_sweep_threshold [OF full_table_distinct _ sweep_entry_admit_other]
  by (simp add: sweep_entry_admit_length sampler_10_per_1000_fields sweep_entry_fields)

text \<open>
  Claim C4. With \<open>maxPerWindow = 10\<close> and \<open>windowMs = 1000\<close>, twelve entries of one key
  with the timestamps 0 (ten times), 500 and 1001, passed to a new instance: the first
  ten are forwarded, the eleventh is dropped, the twelfth is forwarded, and it has opened
  a new window at 1001.
\<close>

theorem sampling_example_10_per_1000:
  assumes "maxPerWindow cfg = 10" and "windowMs cfg = 1000"
    and "\<forall>e\<in>set es. keyFn cfg e = k"
    and "map timestamp es = [0, 0, 0, 0, 0, 0, 0, 0, 0, 0, 500, 1001]"
  shows "snd (sampling_run cfg new_buckets es) = take 10 es @ [es ! 11]
       \<and> sampling_decisions cfg new_buckets es
           = [True, True, True, True, True, True, True, True, True, True, False, True]
       \<and> fst (sampling_run cfg new_buckets es) = [(k, \<lparr>count = 1, windowStart = 1001\<rparr>)]"
proof -
  from assms(4) obtain e1 e2 e3 e4 e5 e6 e7 e8 e9 e10 e11 e12 where
    es: "es = [e1, e2, e3, e4, e5, e6, e7, e8, e9, e10, e11, e12]"
    by (auto simp: map_eq_Cons_conv)
  from assms(3,4) have kt:
    "keyFn cfg e1 = k" "keyFn cfg e2 = k" "keyFn cfg e3 = k" "keyFn cfg e4 = k"
    "keyFn cfg e5 = k" "keyFn cfg e6 = k" "keyFn cfg e7 = k" "keyFn cfg e8 = k"
    "keyFn cfg e9 = k" "keyFn cfg e10 = k" "keyFn cfg e11 = k" "keyFn cfg e12 = k"
    "timestamp e1 = 0" "timestamp e2 = 0" "timestamp e3 = 0" "timestamp e4 = 0"
    "timestamp e5 = 0" "timestamp e6 = 0" "timestamp e7 = 0" "timestamp e8 = 0"
    "timestamp e9 = 0" "timestamp e10 = 0" "timestamp e11 = 500" "timestamp e12 = 1001"
    unfolding es by simp_all
  show ?thesis
    unfolding es
    by (simp add: new_buckets_def sampling_call_def sampling_admit_def sampling_cleanup_def
          Let_def kt assms(1,2))
qed

theorem sampling_example_10_per_1000_witness:
  "sampling_decisions sampler_10_per_1000 new_buckets
      (map (mk_entry ''boot'') [0, 0, 0, 0, 0, 0, 0, 0, 0, 0, 500, 1001])
     = [True, True, True, True, True, True, True, True, True, True, False, True]
   \<and> snd (sampling_run sampler_10_per_1000 new_buckets
      (map (mk_entry ''boot'') [0, 0, 0, 0, 0, 0, 0, 0, 0, 0, 500, 1001]))
     = map (mk_entry ''boot'') [0, 0, 0, 0, 0, 0, 0, 0, 0, 0, 1001]
   \<and> fst (sampling_run sampler_10_per_1000 new_buckets
      (map (mk_entry ''boot'') [0, 0, 0, 0, 0, 0, 0, 0, 0, 0, 500, 1001]))
     = [(''boot'', \<lparr>count = 1, windowStart = 1001\<rparr>)]"
  using sampling_example_10_per_1000 [where k = "''boot''"
      and es = "map (mk_entry ''boot'') [0, 0, 0, 0, 0, 0, 0, 0, 0, 0, 500, 1001]"
      and cfg = sampler_10_per_1000]
  by (simp add: sampler_10_per_1000_fields) (simp add: mk_entry_def)

text \<open>
  Claim C5. One invocation of the sampling closure calls \<open>next\<close> at most once, and so
  does one invocation of the OCPP closure, whatever the entry, the table, the store and
  the options are.
\<close>

theorem middleware_calls_next_at_most_once:
  "length (snd (sampling_call cfg bs e)) \<le> 1
   \<and> length (ocpp_next_calls ocfg js h a) \<le> 1"
proof -
  have "length (snd (sampling_call cfg bs e)) \<le> 1"
    by (simp add: call_calls admit_calls)
  moreover have "length (ocpp_next_calls ocfg js h a) \<le> 1"
    by (simp add: ocpp_next_calls_def ocpp_call_def heap_alloc_def Let_def
          split: option.splits obj.splits)
  ultimately show ?thesis by simp
qed

theorem middleware_calls_next_at_most_once_witness:
  "length (snd (sampling_call sampler_2_per_1000 new_buckets (mk_entry ''boot'' 0))) \<le> 1
   \<and> length (ocpp_next_calls (ocppMiddleware None) braces boot_heap 1) \<le> 1
   \<and> ocpp_next_calls (ocppMiddleware None) braces boot_heap 1 = [3]"
  using middleware_calls_next_at_most_once [of sampler_2_per_1000 new_buckets
      "mk_entry ''boot'' 0" "ocppMiddleware None" braces boot_heap 1]
  by (simp add: ocpp_next_calls_def ocpp_call_def heap_get_def heap_alloc_def boot_heap_def
        boot_entry_def boot_meta_def ocppMiddleware_def braces_def Let_def)

text \<open>
  Claim C6. The closure has no clock: one invocation is a function of the captured
  constants, the table and the entry, and of the entry it reads the key and the
  timestamp only. Two runs of one configuration from the same table, over sequences of
  entries with equal keys and equal timestamps, take the same admit/drop decisions and
  end in the same table.
\<close>

theorem sampling_decisions_from_key_and_timestamp:
  assumes "map (keyFn cfg) es1 = map (keyFn cfg) es2"
    and "map timestamp es1 = map timestamp es2"
  shows "sampling_decisions cfg bs es1 = sampling_decisions cfg bs es2
       \<and> fst (sampling_run cfg bs es1) = fst (sampling_run cfg bs es2)"
  using assms
proof (induction es1 arbitrary: es2 bs)
  case Nil
  then show ?case by simp
next
  case (Cons e1 es1)
  then obtain e2 es2' where es2: "es2 = e2 # es2'" by (cases es2) auto
  from Cons.prems es2 have h: "keyFn cfg e1 = keyFn cfg e2" "timestamp e1 = timestamp e2"
    "map (keyFn cfg) es1 = map (keyFn cfg) es2'" "map timestamp es1 = map timestamp es2'"
    by auto
  note st = call_key_time [OF h(1,2), of bs]
  from Cons.IH [OF h(3,4), of "fst (sampling_call cfg bs e1)"] st
  show ?case unfolding es2 run_Cons_table sampling_decisions.simps by simp
qed

theorem sampling_decisions_from_key_and_timestamp_witness:
  "sampling_decisions sampler_2_per_1000 new_buckets
       [mk_entry ''boot'' 0, mk_entry ''boot'' 10, mk_entry ''boot'' 999]
     = sampling_decisions sampler_2_per_1000 new_buckets
       [(mk_entry ''boot'' 0)\<lparr>entryId := ''x1'', level := 50\<rparr>,
        (mk_entry ''boot'' 10)\<lparr>correlationId := Some ''c''\<rparr>,
        (mk_entry ''boot'' 999)\<lparr>levelName := WARN\<rparr>]
   \<and> fst (sampling_run sampler_2_per_1000 new_buckets
       [mk_entry ''boot'' 0, mk_entry ''boot'' 10, mk_entry ''boot'' 999])
     = fst (sampling_run sampler_2_per_1000 new_buckets
       [(mk_entry ''boot'' 0)\<lparr>entryId := ''x1'', level := 50\<rparr>,
        (mk_entry ''boot'' 10)\<lparr>correlationId := Some ''c''\<rparr>,
        (mk_entry ''boot'' 999)\<lparr>levelName := WARN\<rparr>])"
  using sampling_decisions_from_key_and_timestamp [where cfg = sampler_2_per_1000
      and ?es1.0 = "[mk_entry ''boot'' 0, mk_entry ''boot'' 10, mk_entry ''boot'' 999]"
      and ?es2.0 = "[(mk_entry ''boot'' 0)\<lparr>entryId := ''x1'', level := 50\<rparr>,
        (mk_entry ''boot'' 10)\<lparr>correlationId := Some ''c''\<rparr>,
        (mk_entry ''boot'' 999)\<lparr>levelName := WARN\<rparr>]" and bs = new_buckets]
  by (simp add: sampler_2_per_1000_def samplingMiddleware_def mk_entry_def)

text \<open>
  Claim C7. When the table holds more than 10000 buckets after the entry has been
  counted, the table the invocation leaves is the table without exactly the buckets
  whose window ended at least one window before the entry's timestamp
  (\<open>windowStart + windowMs <= now - windowMs\<close>), which are the buckets with
  \<open>now - windowStart >= 2 * windowMs\<close>; the buckets that stay keep their order.
\<close>

theorem sampling_sweep_purges_exactly:
  assumes "distinct (map fst bs)"
    and "length (fst (sampling_admit cfg bs e)) > 10000"
  shows "fst (sampling_call cfg bs e)
           = filter (\<lambda>p. \<not> windowStart (snd p) + windowMs cfg \<le> timestamp e - windowMs cfg)
               (fst (sampling_admit cfg bs e))
       \<and> fst (sampling_call cfg bs e)
           = filter (\<lambda>p. \<not> timestamp e - windowStart (snd p) \<ge> 2 * windowMs cfg)
               (fst (sampling_admit cfg bs e))"
proof -
  let ?xs = "fst (sampling_admit cfg bs e)"
  have d: "distinct (map fst ?xs)"
    using assms(1) by (rule admit_distinct)
  have A: "fst (sampling_call cfg bs e)
             = filter (\<lambda>p. \<not> timestamp e - windowStart (snd p) \<ge> windowMs cfg * 2) ?xs"
    using assms(2) by (simp add: call_table sampling_cleanup_def sweep_loop_self [OF d])
  have B: "filter (\<lambda>p. \<not> timestamp e - windowStart (snd p) \<ge> windowMs cfg * 2) ?xs
         = filter (\<lambda>p. \<not> windowStart (snd p) + windowMs cfg \<le> timestamp e - windowMs cfg) ?xs"
    by (rule filter_cong) auto
  have C: "filter (\<lambda>p. \<not> timestamp e - windowStart (snd p) \<ge> windowMs cfg * 2) ?xs
         = filter (\<lambda>p. \<not> timestamp e - windowStart (snd p) \<ge> 2 * windowMs cfg) ?xs"
    by (rule filter_cong) auto
  show ?thesis unfolding A by (rule conjI [OF B C])
qed

theorem sampling_sweep_purges_exactly_witness:
  "distinct (map fst full_table)
   \<and> length (fst (sampling_admit sampler_10_per_1000 full_table sweep_entry)) > 10000
   \<and> fst (sampling_call sampler_10_per_1000 full_table sweep_entry)
       = filter (\<lambda>p. \<not> windowStart (snd p) + 1000 \<le> 2000 - 1000)
           (fst (sampling_admit sampler_10_per_1000 full_table sweep_entry))"
  using sampling_sweep_purges_exactly [OF full_table_distinct, of sampler_10_per_1000 sweep_entry]
  by (simp add: full_table_distinct sweep_entry_admit_length sampler_10_per_1000_fields
        sweep_entry_fields)

text \<open>
  Claim C8. The level table holds TRACE = 10, DEBUG = 20, INFO = 30, WARN = 40,
  ERROR = 50 and FATAL = 60, each less than the next, and SILENT is \<open>Infinity\<close>: every
  finite level is less than it, and no finite level is \<open>>=\<close> it.
\<close>

theorem log_levels_ordered:
  "LogLevel TRACE = Finite 10 \<and> LogLevel DEBUG = Finite 20 \<and> LogLevel INFO = Finite 30
   \<and> LogLevel WARN = Finite 40 \<and> LogLevel ERROR = Finite 50 \<and> LogLevel FATAL = Finite 60
   \<and> js_less (LogLevel TRACE) (LogLevel DEBUG) \<and> js_less (LogLevel DEBUG) (LogLevel INFO)
   \<and> js_less (LogLevel INFO) (LogLevel WARN) \<and> js_less (LogLevel WARN) (LogLevel ERROR)
   \<and> js_less (LogLevel ERROR) (LogLevel FATAL)
   \<and> LogLevel SILENT = Infinity
   \<and> (\<forall>r. js_less (Finite r) (LogLevel SILENT))
   \<and> (\<forall>r. \<not> js_geq (Finite r) (LogLevel SILENT))"
  by (simp add: js_geq_def)

theorem log_levels_ordered_witness:
  "js_less (LogLevel FATAL) (LogLevel SILENT) \<and> \<not> js_geq (LogLevel FATAL) (LogLevel SILENT)
   \<and> \<not> js_geq (Finite 1000000) (LogLevel SILENT)"
  using log_levels_ordered by simp

text \<open>
  Claim C9. Without an options argument the sampling key is the entry's message,
  \<open>maxPerWindow\<close> is 100 and \<open>windowMs\<close> is 60000; and each of the three has that
  default when its option is omitted, whatever the other options are.
\<close>

theorem sampling_defaults:
  "samplingMiddleware None = \<lparr>keyFn = message, maxPerWindow = 100, windowMs = 60000\<rparr>
   \<and> keyFn (samplingMiddleware (Some (opts\<lparr>opt_keyFn := None\<rparr>))) = message
   \<and> maxPerWindow (samplingMiddleware (Some (opts\<lparr>opt_maxPerWindow := None\<rparr>))) = 100
   \<and> windowMs (samplingMiddleware (Some (opts\<lparr>opt_windowMs := None\<rparr>))) = 60000"
  by (simp add: samplingMiddleware_def empty_options_def)

theorem sampling_defaults_witness:
  "keyFn (samplingMiddleware None) (mk_entry ''boot'' 0) = ''boot''
   \<and> maxPerWindow (samplingMiddleware None :: unit sampler) = 100
   \<and> windowMs (samplingMiddleware None :: unit sampler) = 60000
   \<and> windowMs (samplingMiddleware
        (Some \<lparr>opt_keyFn = Some entryId, opt_maxPerWindow = Some 5, opt_windowMs = None\<rparr>)
          :: unit sampler) = 60000"
  using sampling_defaults [where opts
      = "\<lparr>opt_keyFn = Some entryId, opt_maxPerWindow = Some 5, opt_windowMs = None\<rparr>"]
  by (simp add: mk_entry_def samplingMiddleware_def empty_options_def)

text \<open>
  Claim C10, as stated, fails. An entry whose \<open>correlationId\<close> is set to the empty string,
  with a meta object whose \<open>correlationId\<close> is \<open>abc\<close>: the copy passed to \<open>next\<close> has the
  top-level \<open>correlationId\<close> \<open>abc\<close>, so a \<open>correlationId\<close> that was set, and not absent,
  has been overwritten.
\<close>

theorem ocpp_blank_correlation_counterexample:
  "heap_get blank_id_heap 1 = Some (EntryObj blank_id_entry)
   \<and> correlationId blank_id_entry = Some []
   \<and> correlationId blank_id_entry \<noteq> None
   \<and> ocpp_call (ocppMiddleware None) braces blank_id_heap 1
       = Some (blank_id_heap
                 @ [MetaObj (boot_meta\<lparr>payloadSize := Some 2\<rparr>),
                    EntryObj (blank_id_entry\<lparr>meta := 2, correlationId := Some ''abc''\<rparr>)],
               [3])"
proof -
  have "ocpp_call (ocppMiddleware None) braces blank_id_heap 1
       = Some (blank_id_heap
                 @ [MetaObj (boot_meta\<lparr>payloadSize := Some 2\<rparr>),
                    EntryObj (blank_id_entry\<lparr>meta := 2, correlationId := Some ''abc''\<rparr>)],
               [3])"
    unfolding ocpp_call_Some [OF blank_id_heap_objects]
    by (simp add: blank_id_heap_def blank_id_entry_def boot_entry_def boot_meta_def
          ocppMiddleware_def braces_def)
  moreover have "correlationId blank_id_entry = Some []"
    by (simp add: blank_id_entry_def)
  ultimately show ?thesis
    using blank_id_heap_objects(1) by simp
qed

text \<open>
  Claim C10, amended. On an entry object with a meta object, the closure changes no
  object of the store it was given, the entry and its meta object among them. It calls
  \<open>next\<close> with a new entry object that refers to a new meta object. The new entry is the
  old one but for \<open>meta\<close> and \<open>correlationId\<close>, and the new meta object is the old one but
  for \<open>payloadSize\<close>. \<open>payloadSize\<close> differs only when it was undefined and \<open>action\<close> is
  present. The top-level \<open>correlationId\<close> differs only when the entry's was absent or the
  empty string, and is then the one of the meta object; an entry-level \<open>correlationId\<close>
  that is a non-empty string is never overwritten.
\<close>

theorem ocpp_copy_on_write:
  assumes "heap_get h a = Some (EntryObj e)" and "heap_get h (meta e) = Some (MetaObj m)"
  shows "\<exists>h' a' e' m'.
      ocpp_call cfg js h a = Some (h', [a'])
    \<and> take (length h) h' = h
    \<and> length h \<le> a' \<and> length h \<le> meta e'
    \<and> heap_get h' a' = Some (EntryObj e') \<and> heap_get h' (meta e') = Some (MetaObj m')
    \<and> e'\<lparr>meta := meta e, correlationId := correlationId e\<rparr> = e
    \<and> m'\<lparr>payloadSize := payloadSize m\<rparr> = m
    \<and> (payloadSize m' \<noteq> payloadSize m
          \<longrightarrow> autoPayloadSize cfg \<and> payloadSize m = None \<and> action m \<noteq> None)
    \<and> (correlationId e' \<noteq> correlationId e
          \<longrightarrow> propagateCorrelationId cfg
            \<and> (correlationId e = None \<or> correlationId e = Some [])
            \<and> correlationId e' = metaCorrelationId m)
    \<and> (correlationId e \<noteq> None \<and> correlationId e \<noteq> Some []
          \<longrightarrow> correlationId e' = correlationId e)"
  unfolding ocpp_call_Some [OF assms]
  by (cases "correlationId e"; cases "action m"; cases "js m")
     (auto simp: heap_get_def nth_append)

theorem ocpp_copy_on_write_witness:
  "heap_get boot_heap 1 = Some (EntryObj boot_entry)
   \<and> heap_get boot_heap (meta boot_entry) = Some (MetaObj boot_meta)
   \<and> (\<exists>h' a' e' m'.
        ocpp_call (ocppMiddleware None) braces boot_heap 1 = Some (h', [a'])
      \<and> take (length boot_heap) h' = boot_heap
      \<and> heap_get h' a' = Some (EntryObj e') \<and> heap_get h' (meta e') = Some (MetaObj m')
      \<and> e'\<lparr>meta := meta boot_entry, correlationId := correlationId boot_entry\<rparr> = boot_entry
      \<and> m'\<lparr>payloadSize := payloadSize boot_meta\<rparr> = boot_meta)"
  using ocpp_copy_on_write [OF boot_heap_objects, of "ocppMiddleware None" braces]
    boot_heap_objects
  by blast

end
